theory Spec2Isabelle
  imports Complex_Main "HOL-Library.Log_Nat"
begin

section \<open>Bearings to GPS: the bearing parser and the traverse loop\<close>

text \<open>
  A shallow embedding of \<^verbatim>\<open>utils/bearings_utils.py\<close> (the function
  \<^verbatim>\<open>parse_bearing\<close> with its two regular expressions) and of the loop at the
  end of \<^verbatim>\<open>bearingstogps.py\<close>.

  Conventions of the model:
  \<^item> a Python \<^verbatim>\<open>str\<close> is a \<open>string\<close> whose characters are the code points
    U+0000 to U+00FF (one \<open>char\<close> per code point);
  \<^item> a Python \<^verbatim>\<open>float\<close> is an IEEE 754 double (\<open>pyfloat\<close>): a finite value is
    the rational number it stands for, beside the two infinities and NaN, and every
    operation rounds to the nearest double, ties to even. The two zeros are one value:
    the code adds, multiplies and compares its floats and divides them by 60 and 3600,
    and none of these tells the two zeros apart;
  \<^item> a raised exception is the \<open>Inl\<close> of a sum; all exceptions of
    \<^verbatim>\<open>parse_bearing\<close> are \<^verbatim>\<open>ValueError\<close>s, told apart here by the
    place that raises them.
\<close>

subsection \<open>Characters and strings\<close>

definition py_isspace :: "char \<Rightarrow> bool" where
  \<comment> \<open>the whitespace of \<^verbatim>\<open>str.strip()\<close> and of \<^verbatim>\<open>\s\<close> below U+0100\<close>
  "py_isspace c =
     (let n = (of_char c :: nat)
      in (9 \<le> n \<and> n \<le> 13) \<or> (28 \<le> n \<and> n \<le> 32) \<or> n = 133 \<or> n = 160)"

definition py_strip :: "string \<Rightarrow> string" where
  "py_strip s = rev (dropWhile py_isspace (rev (dropWhile py_isspace s)))"

definition startswith :: "string \<Rightarrow> string \<Rightarrow> bool" where
  "startswith s p = (take (length p) s = p)"

definition is_digit :: "char \<Rightarrow> bool" where
  "is_digit c = (48 \<le> (of_char c :: nat) \<and> (of_char c :: nat) \<le> 57)"

definition digit_val :: "char \<Rightarrow> int" where
  "digit_val c = of_char c - 48"

definition dec_val :: "string \<Rightarrow> int" where
  "dec_val ds = foldl (\<lambda>a c. 10 * a + digit_val c) 0 ds"

subsection \<open>Floats\<close>

datatype pyfloat = Fin rat | PInf | NInf | NaN

definition pow2 :: "int \<Rightarrow> rat" where
  "pow2 e = power_int 2 e"

definition ilog2 :: "rat \<Rightarrow> int" where
  \<comment> \<open>the binary exponent of a positive number: \<open>pow2 e \<le> x < pow2 (e + 1)\<close>\<close>
  "ilog2 x =
     (let (a, b) = quotient_of x;
          g = bitlen a - bitlen b
      in if pow2 g \<le> x then g else g - 1)"

definition round_half_even :: "rat \<Rightarrow> int" where
  "round_half_even x =
     (let f = \<lfloor>x\<rfloor>; r = x - of_int f
      in if r < 1 / 2 then f else if 1 / 2 < r then f + 1
         else if even f then f else f + 1)"

definition round_double :: "rat \<Rightarrow> pyfloat" where
  \<comment> \<open>the double nearest to a number: 53 significant bits, exponents from -1022 (below
      which the spacing stays \<open>pow2 (- 1074)\<close>), and an infinity when the rounded value
      reaches \<open>pow2 1024\<close>\<close>
  "round_double x =
     (if x = 0 then Fin 0
      else
        (let a = \<bar>x\<bar>;
             e = max (ilog2 a) (- 1022);
             q = pow2 (e - 52);
             y = of_int (round_half_even (a / q)) * q
         in if pow2 1024 \<le> y then (if 0 < x then PInf else NInf)
            else Fin (if 0 < x then y else - y)))"

fun fadd :: "pyfloat \<Rightarrow> pyfloat \<Rightarrow> pyfloat" where
  "fadd (Fin a) (Fin b) = round_double (a + b)"
| "fadd NaN y = NaN"
| "fadd x NaN = NaN"
| "fadd PInf NInf = NaN"
| "fadd NInf PInf = NaN"
| "fadd PInf y = PInf"
| "fadd x PInf = PInf"
| "fadd NInf y = NInf"
| "fadd x NInf = NInf"

fun fmul :: "pyfloat \<Rightarrow> pyfloat \<Rightarrow> pyfloat" where
  "fmul (Fin a) (Fin b) = round_double (a * b)"
| "fmul NaN y = NaN"
| "fmul x NaN = NaN"
| "fmul (Fin a) PInf = (if a = 0 then NaN else if 0 < a then PInf else NInf)"
| "fmul (Fin a) NInf = (if a = 0 then NaN else if 0 < a then NInf else PInf)"
| "fmul PInf (Fin b) = (if b = 0 then NaN else if 0 < b then PInf else NInf)"
| "fmul NInf (Fin b) = (if b = 0 then NaN else if 0 < b then NInf else PInf)"
| "fmul PInf PInf = PInf"
| "fmul PInf NInf = NInf"
| "fmul NInf PInf = NInf"
| "fmul NInf NInf = PInf"

fun fdiv :: "pyfloat \<Rightarrow> int \<Rightarrow> pyfloat" where
  \<comment> \<open>a float divided by a positive integer constant (60 and 3600 in the code)\<close>
  "fdiv (Fin a) c = round_double (a / of_int c)"
| "fdiv PInf c = PInf"
| "fdiv NInf c = NInf"
| "fdiv NaN c = NaN"

fun flt :: "pyfloat \<Rightarrow> pyfloat \<Rightarrow> bool" where
  \<comment> \<open>\<^verbatim>\<open>x < y\<close>; \<^verbatim>\<open>x > y\<close> is \<open>flt y x\<close>. A comparison with NaN is false.\<close>
  "flt (Fin a) (Fin b) = (a < b)"
| "flt NaN y = False"
| "flt x NaN = False"
| "flt x NInf = False"
| "flt PInf y = False"
| "flt NInf y = True"
| "flt x PInf = True"

definition float_literal :: "string \<Rightarrow> rat option" where
  \<comment> \<open>the number that \<^verbatim>\<open>float\<close> reads in a string over the characters
      \<^verbatim>\<open>+-.0123456789\<close>, the only ones a numeric run can hold: an optional sign, then
      digits with an optional point, at least one digit in all. \<open>None\<close> is the
      \<^verbatim>\<open>ValueError\<close> of \<^verbatim>\<open>float\<close>.\<close>
  "float_literal s =
     (let sgn = (if startswith s ''-'' then - 1 else 1 :: rat);
          body = (if startswith s ''-'' \<or> startswith s ''+'' then tl s else s);
          ip = takeWhile is_digit body;
          rest = dropWhile is_digit body
      in if rest = [] then
           (if ip = [] then None else Some (sgn * of_int (dec_val ip)))
         else if hd rest = CHR ''.'' \<and> list_all is_digit (tl rest)
                 \<and> \<not> (ip = [] \<and> tl rest = []) then
           Some (sgn * (of_int (dec_val ip)
                        + of_int (dec_val (tl rest)) / 10 ^ length (tl rest)))
         else None)"

definition py_float :: "string \<Rightarrow> pyfloat option" where
  \<comment> \<open>\<^verbatim>\<open>float(s)\<close>: the literal, correctly rounded\<close>
  "py_float s = map_option round_double (float_literal s)"

subsection \<open>The regular expressions\<close>

text \<open>
  Both patterns are a sequence of starred character classes, some of them capturing.
  \<open>match_here\<close> is the backtracking matcher at one position: each class takes the
  longest run first and gives characters back while the rest of the pattern fails.
  \<open>re_search\<close> tries the start positions from left to right, as \<^verbatim>\<open>re.search\<close>
  does, and returns the captured groups of the first match.
\<close>

datatype item = Group "char \<Rightarrow> bool" | Skip "char \<Rightarrow> bool"

fun item_class :: "item \<Rightarrow> char \<Rightarrow> bool" where
  "item_class (Group cls) = cls"
| "item_class (Skip cls) = cls"

fun emit :: "item \<Rightarrow> string \<Rightarrow> string list \<Rightarrow> string list" where
  "emit (Group cls) g gs = g # gs"
| "emit (Skip cls) g gs = gs"

fun match_here :: "item list \<Rightarrow> string \<Rightarrow> string list option"
  and backtrack :: "item \<Rightarrow> item list \<Rightarrow> string \<Rightarrow> nat \<Rightarrow> string list option" where
  "match_here [] s = Some []"
| "match_here (it # its) s = backtrack it its s (length (takeWhile (item_class it) s))"
| "backtrack it its s 0 =
     (case match_here its s of
        Some gs \<Rightarrow> Some (emit it [] gs)
      | None \<Rightarrow> None)"
| "backtrack it its s (Suc k) =
     (case match_here its (drop (Suc k) s) of
        Some gs \<Rightarrow> Some (emit it (take (Suc k) s) gs)
      | None \<Rightarrow> backtrack it its s k)"

fun re_search :: "item list \<Rightarrow> string \<Rightarrow> string list option" where
  "re_search p [] = match_here p []"
| "re_search p (c # s) =
     (case match_here p (c # s) of
        Some gs \<Rightarrow> Some gs
      | None \<Rightarrow> re_search p s)"

definition cardinal_letter :: "char \<Rightarrow> bool" where
  \<comment> \<open>the class \<^verbatim>\<open>[SOUTHsouthEAeaWwNRnr]\<close>\<close>
  "cardinal_letter c = (c \<in> set ''SOUTHsouthEAeaWwNRnr'')"

definition numeric_char :: "char \<Rightarrow> bool" where
  \<comment> \<open>the class \<^verbatim>\<open>[\+\-\.0-9]\<close>\<close>
  "numeric_char c = (c \<in> set ''+-.'' \<or> is_digit c)"

definition bearing_pat :: "item list" where
  "bearing_pat =
     [Group cardinal_letter, Skip py_isspace, Group (\<lambda>c. \<not> cardinal_letter c),
      Skip py_isspace, Group cardinal_letter]"

definition angle_pat :: "item list" where
  "angle_pat =
     [Group numeric_char, Skip (\<lambda>c. \<not> numeric_char c), Group numeric_char,
      Skip (\<lambda>c. \<not> numeric_char c), Group numeric_char]"

subsection \<open>parse_bearing\<close>

datatype cardinal = North | East | South | West

datatype error =
    InvalidDirections cardinal cardinal
  | CouldNotParseAngle string
  | CouldNotParseBearing string
  | InvalidBearingResult pyfloat
  | FloatValueError string
  | NoneTypeError
  | IndexError

definition decode_init :: "string \<Rightarrow> cardinal \<times> pyfloat" where
  \<comment> \<open>lines 36 to 44: the label \<open>init\<close> and the base bearing; a prefix in W is
      labelled east there\<close>
  "decode_init init_str =
     (if startswith init_str ''E'' \<or> startswith init_str ''e'' then (East, Fin 90)
      else if startswith init_str ''S'' \<or> startswith init_str ''s'' then (South, Fin 180)
      else if startswith init_str ''W'' \<or> startswith init_str ''w'' then (East, Fin 270)
      else (North, Fin 0))"

definition decode_dir :: "string \<Rightarrow> cardinal \<Rightarrow> pyfloat \<Rightarrow> cardinal \<times> pyfloat \<times> int" where
  \<comment> \<open>lines 46 to 61: the label \<open>dir\<close>, the bearing and \<open>angle_dir\<close>\<close>
  "decode_dir dir_str init bearing =
     (if startswith dir_str ''S'' \<or> startswith dir_str ''s'' then
        (South, bearing, if init = West then - 1 else 1)
      else if startswith dir_str ''N'' \<or> startswith dir_str ''n'' then
        (North, if init = East then Fin 360 else bearing, if init = East then - 1 else 1)
      else if startswith dir_str ''W'' \<or> startswith dir_str ''w'' then
        (West, bearing, if init = North then - 1 else 1)
      else
        (East, bearing, if init = South then - 1 else 1))"

definition same_axis :: "cardinal \<Rightarrow> cardinal \<Rightarrow> bool" where
  \<comment> \<open>the condition of lines 64 to 67\<close>
  "same_axis init dir =
     (((init = South \<or> init = North) \<and> (dir = South \<or> dir = North))
      \<or> ((init = West \<or> init = East) \<and> (dir = West \<or> dir = East)))"

definition add_run :: "pyfloat \<Rightarrow> string \<Rightarrow> (pyfloat \<Rightarrow> pyfloat) \<Rightarrow> error + pyfloat" where
  \<comment> \<open>one of the three blocks of lines 86 to 94: a group that is not empty is
      converted, and its term is added to the bearing\<close>
  "add_run bearing run_str term =
     (if run_str \<noteq> [] then
        (case py_float run_str of
           None \<Rightarrow> Inl (FloatValueError run_str)
         | Some v \<Rightarrow> Inr (fadd bearing (term v)))
      else Inr bearing)"

definition add_angles :: "int \<Rightarrow> string list \<Rightarrow> pyfloat \<Rightarrow> error + pyfloat" where
  \<comment> \<open>lines 76 to 94; \<open>angle_dir\<close> is the integer 1 or -1\<close>
  "add_angles angle_dir angle_groups bearing =
     (let degrees_str = angle_groups ! 0;
          minutes_str = angle_groups ! 1;
          seconds_str = angle_groups ! 2
      in case add_run bearing degrees_str (\<lambda>v. fmul (Fin (of_int angle_dir)) v) of
           Inl e \<Rightarrow> Inl e
         | Inr b1 \<Rightarrow>
             (case add_run b1 minutes_str
                     (\<lambda>v. fdiv (fmul (Fin (of_int angle_dir)) v) 60) of
                Inl e \<Rightarrow> Inl e
              | Inr b2 \<Rightarrow>
                  add_run b2 seconds_str
                    (\<lambda>v. fdiv (fmul (Fin (of_int angle_dir)) v) 3600)))"

definition check_range :: "pyfloat \<Rightarrow> error + pyfloat" where
  \<comment> \<open>lines 101 to 107\<close>
  "check_range bearing =
     (let b = (if flt bearing (Fin 0) then fadd bearing (Fin 360) else bearing)
      in if flt b (Fin 0) \<or> flt (Fin 360) b then Inl (InvalidBearingResult b) else Inr b)"

definition accumulate_bearing :: "string \<Rightarrow> error + pyfloat" where
  \<comment> \<open>lines 22 to 99: the bearing as it stands before the range check\<close>
  "accumulate_bearing bearing_str =
     (case re_search bearing_pat bearing_str of
        None \<Rightarrow> Inl (CouldNotParseBearing bearing_str)
      | Some bearing_groups \<Rightarrow>
          (let init_str = bearing_groups ! 0;
               angle_str = py_strip (bearing_groups ! 1);
               dir_str = bearing_groups ! 2;
               (init, bearing0) = decode_init init_str;
               (dir, bearing1, angle_dir) = decode_dir dir_str init bearing0
           in if same_axis init dir then Inl (InvalidDirections init dir)
              else
                (case re_search angle_pat angle_str of
                   None \<Rightarrow> Inl (CouldNotParseAngle angle_str)
                 | Some angle_groups \<Rightarrow> add_angles angle_dir angle_groups bearing1)))"

definition parse_bearing :: "string \<Rightarrow> error + pyfloat" where
  "parse_bearing bearing_str =
     (case accumulate_bearing bearing_str of
        Inl e \<Rightarrow> Inl e
      | Inr bearing \<Rightarrow> check_range bearing)"

subsection \<open>The traverse loop of bearingstogps.py\<close>

text \<open>
  The geodesic computation of \<^verbatim>\<open>geopy\<close> is a parameter
  \<open>destination feet start_point bearing\<close>; a point is any type \<open>'p\<close>. A row of
  the table is its bearing cell and its distance. The lines printed by the loop are not
  modelled.
\<close>

record survey_row =
  row_bearing :: string
  row_distance :: pyfloat

definition get_row_val :: "string \<Rightarrow> string option" where
  \<comment> \<open>\<^verbatim>\<open>get_row_val\<close> on a string cell: stripped, and \<^verbatim>\<open>None\<close> for an empty
      cell or the text nan\<close>
  "get_row_val v =
     (let val = py_strip v
      in if val = [] \<or> val = ''nan'' then None else Some val)"

definition to_feet :: "string option \<Rightarrow> pyfloat \<Rightarrow> pyfloat" where
  \<comment> \<open>lines 87 and 88; \<open>units\<close> is \<open>None\<close> when the option is not given\<close>
  "to_feet units distance =
     (if units = Some ''poles'' \<or> units = Some ''rods'' then fmul distance (Fin (33 / 2))
      else distance)"

definition row_azimuth :: "survey_row \<Rightarrow> error + pyfloat" where
  \<comment> \<open>lines 85 and 91; \<^verbatim>\<open>parse_bearing(None)\<close> is a \<^verbatim>\<open>TypeError\<close> of
      \<^verbatim>\<open>re.search\<close>\<close>
  "row_azimuth row =
     (case get_row_val (row_bearing row) of
        None \<Rightarrow> Inl NoneTypeError
      | Some bearing_str \<Rightarrow> parse_bearing bearing_str)"

fun traverse_loop ::
  "(pyfloat \<Rightarrow> 'p \<Rightarrow> pyfloat \<Rightarrow> 'p) \<Rightarrow> string option \<Rightarrow> survey_row list \<Rightarrow> 'p list
     \<Rightarrow> error + 'p list" where
  "traverse_loop destination units [] points = Inr points"
| "traverse_loop destination units (row # rows) points =
     (let distance = to_feet units (row_distance row)
      in case row_azimuth row of
           Inl e \<Rightarrow> Inl e
         | Inr bearing \<Rightarrow>
             (if points = [] then Inl IndexError
              else
                (let start_point = last points;
                     end_point = destination distance start_point bearing
                 in traverse_loop destination units rows (points @ [end_point]))))"

definition traverse ::
  "(pyfloat \<Rightarrow> 'p \<Rightarrow> pyfloat \<Rightarrow> 'p) \<Rightarrow> string option \<Rightarrow> 'p \<Rightarrow> survey_row list
     \<Rightarrow> error + 'p list" where
  \<comment> \<open>lines 78 to 97: \<open>points\<close> starts as the origin alone\<close>
  "traverse destination units origin rows = traverse_loop destination units rows [origin]"

subsection \<open>Notions used to state the properties\<close>

text \<open>The three zones of a bearing string and the three numeric runs of its middle
  zone, as the two searches capture them.\<close>

definition prefix_zone :: "string \<Rightarrow> string" where
  "prefix_zone s = (case re_search bearing_pat s of None \<Rightarrow> [] | Some gs \<Rightarrow> gs ! 0)"

definition middle_zone :: "string \<Rightarrow> string" where
  "middle_zone s =
     (case re_search bearing_pat s of None \<Rightarrow> [] | Some gs \<Rightarrow> py_strip (gs ! 1))"

definition suffix_zone :: "string \<Rightarrow> string" where
  "suffix_zone s = (case re_search bearing_pat s of None \<Rightarrow> [] | Some gs \<Rightarrow> gs ! 2)"

definition degrees_run :: "string \<Rightarrow> string" where
  "degrees_run a = (case re_search angle_pat a of None \<Rightarrow> [] | Some gs \<Rightarrow> gs ! 0)"

definition minutes_run :: "string \<Rightarrow> string" where
  "minutes_run a = (case re_search angle_pat a of None \<Rightarrow> [] | Some gs \<Rightarrow> gs ! 1)"

definition seconds_run :: "string \<Rightarrow> string" where
  "seconds_run a = (case re_search angle_pat a of None \<Rightarrow> [] | Some gs \<Rightarrow> gs ! 2)"



fun fneg :: "pyfloat \<Rightarrow> pyfloat" where
  "fneg (Fin a) = Fin (- a)"
| "fneg PInf = NInf"
| "fneg NInf = PInf"
| "fneg NaN = NaN"

fun greedy :: "item list \<Rightarrow> string \<Rightarrow> string list" where
  \<comment> \<open>the groups when every class takes its longest run and nothing is given back\<close>
  "greedy [] s = []"
| "greedy (it # its) s =
     emit it (takeWhile (item_class it) s) (greedy its (dropWhile (item_class it) s))"

fun is_axis_error :: "error + pyfloat \<Rightarrow> bool" where
  "is_axis_error (Inl (InvalidDirections i d)) = True"
| "is_axis_error r = False"

text \<open>The decoding of the two cardinal words as the specification words it: a prefix in
  W is West.\<close>

definition spec_initial_reference :: "string \<Rightarrow> cardinal" where
  "spec_initial_reference p =
     (if startswith p ''E'' \<or> startswith p ''e'' then East
      else if startswith p ''S'' \<or> startswith p ''s'' then South
      else if startswith p ''W'' \<or> startswith p ''w'' then West
      else North)"

definition spec_swing_direction :: "string \<Rightarrow> cardinal" where
  "spec_swing_direction q =
     (if startswith q ''S'' \<or> startswith q ''s'' then South
      else if startswith q ''N'' \<or> startswith q ''n'' then North
      else if startswith q ''W'' \<or> startswith q ''w'' then West
      else East)"

fun path :: "(pyfloat \<Rightarrow> 'p \<Rightarrow> pyfloat \<Rightarrow> 'p) \<Rightarrow> string option \<Rightarrow> 'p \<Rightarrow> survey_row list \<Rightarrow> 'p list" where
  \<comment> \<open>the points after a start point when every row parses\<close>
  "path destination units p [] = []"
| "path destination units p (row # rows) =
     (let q = destination (to_feet units (row_distance row)) p (projr (row_azimuth row))
      in q # path destination units q rows)"

definition overflow_bearing :: string where
  \<comment> \<open>a bearing whose degrees run is 1 followed by 309 zeros and whose minutes run is
      the same number with a minus sign: both are beyond the largest double\<close>
  "overflow_bearing =
     ''N 1'' @ replicate 309 (CHR ''0'') @ '' -1'' @ replicate 309 (CHR ''0'') @ '' E''"

section \<open>Properties\<close>

subsection \<open>Rounding to a double\<close>

lemma pow2_pos [simp]: "0 < pow2 e"
  by (simp add: pow2_def)

lemma pow2_add: "pow2 (a + b) = pow2 a * pow2 b"
  by (simp add: pow2_def power_int_add)

lemma pow2_diff: "pow2 (a - b) = pow2 a / pow2 b"
  by (simp add: pow2_def power_int_diff)

lemma pow2_less: "a < b \<Longrightarrow> pow2 a < pow2 b"
  by (simp add: pow2_def power_int_strict_increasing)

lemma pow2_le: "a \<le> b \<Longrightarrow> pow2 a \<le> pow2 b"
  by (simp add: pow2_def power_int_increasing)

lemma pow2_nonneg_exp: "0 \<le> e \<Longrightarrow> pow2 e = 2 ^ nat e"
  by (simp add: pow2_def power_int_nonneg_exp)

lemma pow2_less_cancel: "pow2 a < pow2 b \<Longrightarrow> a < b"
  using pow2_le [of b a] by (cases "a < b") auto

lemma bitlen_rat_bounds:
  assumes "0 < a"
  shows "pow2 (bitlen a - 1) \<le> of_int a" and "of_int a < pow2 (bitlen a)"
proof -
  from assms have b: "2 ^ nat (bitlen a - 1) \<le> a" "a < 2 ^ nat (bitlen a)"
    using bitlen_bounds [of a] by simp_all
  from assms have ge: "1 \<le> bitlen a"
    using bitlen_eq_zero_iff [of a] bitlen_nonneg [of a] by linarith
  have "(2::rat) ^ nat (bitlen a - 1) = of_int (2 ^ nat (bitlen a - 1))" by simp
  also have "\<dots> \<le> of_int a" using b(1) by (simp only: of_int_le_iff)
  finally show "pow2 (bitlen a - 1) \<le> of_int a"
    using ge by (simp add: pow2_nonneg_exp)
  have "(of_int a :: rat) < of_int (2 ^ nat (bitlen a))"
    using b(2) by (simp only: of_int_less_iff)
  then show "of_int a < pow2 (bitlen a)"
    using ge by (simp add: pow2_nonneg_exp)
qed

lemma ilog2_bounds:
  assumes "0 < x"
  shows "pow2 (ilog2 x) \<le> x" and "x < pow2 (ilog2 x + 1)"
proof -
  obtain a b where q: "quotient_of x = (a, b)" by (cases "quotient_of x")
  then have bpos: "0 < b" by (rule quotient_of_denom_pos)
  from q have x: "x = of_int a / of_int b" by (rule quotient_of_div)
  from assms x bpos have apos: "0 < a" by (simp add: zero_less_divide_iff)
  let ?g = "bitlen a - bitlen b"
  note ba = bitlen_rat_bounds [OF apos] and bb = bitlen_rat_bounds [OF bpos]
  have bq: "0 < (of_int b :: rat)" using bpos by simp
  have "x < pow2 (bitlen a) / pow2 (bitlen b - 1)"
    unfolding x using ba(2) bb(1) bq apos
    by (intro frac_less) simp_all
  then have up: "x < pow2 (?g + 1)"
    by (simp add: pow2_diff [symmetric] algebra_simps)
  have "pow2 (bitlen a - 1) / pow2 (bitlen b) < x"
    unfolding x using ba(1) bb(2) bq
    by (intro frac_less2) simp_all
  then have lo: "pow2 (?g - 1) < x"
    by (simp add: pow2_diff [symmetric] algebra_simps)
  have i: "ilog2 x = (if pow2 ?g \<le> x then ?g else ?g - 1)"
    by (simp add: ilog2_def q Let_def)
  show "pow2 (ilog2 x) \<le> x" using lo by (simp add: i)
  show "x < pow2 (ilog2 x + 1)" using up by (auto simp: i not_le)
qed

lemma ilog2_unique:
  assumes "0 < x" "pow2 e \<le> x" "x < pow2 (e + 1)"
  shows "ilog2 x = e"
proof -
  have "pow2 (ilog2 x) < pow2 (e + 1)"
    using ilog2_bounds(1) [OF assms(1)] assms(3) by simp
  then have a: "ilog2 x < e + 1" by (rule pow2_less_cancel)
  have "pow2 e < pow2 (ilog2 x + 1)"
    using ilog2_bounds(2) [OF assms(1)] assms(2) by simp
  then have "e < ilog2 x + 1" by (rule pow2_less_cancel)
  with a show ?thesis by simp
qed

lemma round_half_even_near:
  assumes "of_int n - 1 / 2 < x" "x < of_int n + 1 / 2"
  shows "round_half_even x = n"
proof (cases "of_int n \<le> x")
  case True
  then have "\<lfloor>x\<rfloor> = n" using assms(2) by (intro floor_unique) simp_all
  then show ?thesis using assms(2) by (simp add: round_half_even_def Let_def)
next
  case False
  then have f: "\<lfloor>x\<rfloor> = n - 1" using assms(1) by (intro floor_unique) simp_all
  have "1 / 2 < x - of_int (n - 1)" using assms(1) by simp
  then show ?thesis by (simp add: round_half_even_def Let_def f)
qed

lemma round_half_even_ge_floor: "\<lfloor>x\<rfloor> \<le> round_half_even x"
  by (simp add: round_half_even_def Let_def)

lemma round_double_neg: "round_double (- x) = fneg (round_double x)"
  by (simp add: round_double_def Let_def)

lemma round_double_eval:
  assumes "0 < x" "pow2 e \<le> x" "x < pow2 (e + 1)" "- 1022 \<le> e"
    and "of_int n - 1 / 2 < x / pow2 (e - 52)" "x / pow2 (e - 52) < of_int n + 1 / 2"
    and "of_int n * pow2 (e - 52) < pow2 1024"
  shows "round_double x = Fin (of_int n * pow2 (e - 52))"
proof -
  have i: "ilog2 x = e" using assms(1-3) by (simp add: ilog2_unique)
  have m: "max e (- 1022) = e" using assms(4) by simp
  have r: "round_half_even (x / pow2 (e - 52)) = n"
    using assms(5,6) by (simp add: round_half_even_near)
  show ?thesis
    using assms(1,7) by (simp add: round_double_def Let_def i m r)
qed

lemma round_double_overflow:
  assumes "pow2 1024 \<le> x"
  shows "round_double x = PInf"
proof -
  have xpos: "0 < x" using assms pow2_pos [of 1024] by linarith
  let ?e = "ilog2 x"
  have "pow2 1024 < pow2 (?e + 1)" using ilog2_bounds(2) [OF xpos] assms by simp
  then have e: "1024 \<le> ?e" using pow2_less_cancel [of 1024 "?e + 1"] by simp
  then have m: "max ?e (- 1022) = ?e" by simp
  let ?q = "pow2 (?e - 52)"
  have "pow2 52 * ?q = pow2 ?e" by (simp add: pow2_add [symmetric])
  then have "pow2 52 * ?q \<le> x" using ilog2_bounds(1) [OF xpos] by simp
  then have "pow2 52 \<le> x / ?q" by (simp add: pos_le_divide_eq)
  then have "(2::rat) ^ 52 \<le> x / ?q" by (simp add: pow2_def)
  then have "(of_int (2 ^ 52) :: rat) \<le> x / ?q" by simp
  then have "2 ^ 52 \<le> \<lfloor>x / ?q\<rfloor>" by (simp only: le_floor_iff)
  then have "2 ^ 52 \<le> round_half_even (x / ?q)"
    using round_half_even_ge_floor [of "x / ?q"] by linarith
  then have "(of_int (2 ^ 52) :: rat) \<le> of_int (round_half_even (x / ?q))"
    by (simp only: of_int_le_iff)
  then have "pow2 52 \<le> of_int (round_half_even (x / ?q))" by (simp add: pow2_def)
  then have "pow2 52 * ?q \<le> of_int (round_half_even (x / ?q)) * ?q"
    by (simp add: mult_right_mono)
  then have "pow2 ?e \<le> of_int (round_half_even (x / ?q)) * ?q"
    using \<open>pow2 52 * ?q = pow2 ?e\<close> by simp
  moreover have "pow2 1024 \<le> pow2 ?e" using e by (rule pow2_le)
  ultimately have "pow2 1024 \<le> of_int (round_half_even (x / ?q)) * ?q" by linarith
  then show ?thesis using xpos by (simp add: round_double_def Let_def m)
qed

lemma round_double_int:
  assumes "0 < k" "k < 2 ^ 53"
  shows "round_double (of_int k) = Fin (of_int k)"
proof -
  let ?x = "of_int k :: rat"
  have xpos: "0 < ?x" using assms(1) by simp
  let ?e = "ilog2 ?x"
  note b = ilog2_bounds [OF xpos]
  have "pow2 0 \<le> ?x" using assms(1) by (simp add: pow2_def)
  then have "pow2 0 < pow2 (?e + 1)" using b(2) by linarith
  then have e0: "0 \<le> ?e" using pow2_less_cancel [of 0 "?e + 1"] by simp
  have "?x < pow2 53" using assms(2) by (simp add: pow2_def flip: of_int_less_iff)
  then have "pow2 ?e < pow2 53" using b(1) by linarith
  then have e52: "?e \<le> 52" using pow2_less_cancel [of ?e 53] by simp
  let ?n = "k * 2 ^ nat (52 - ?e)"
  have q: "pow2 (?e - 52) = 1 / 2 ^ nat (52 - ?e)"
    using e52 pow2_nonneg_exp [of "52 - ?e"] pow2_diff [of 0 "52 - ?e"]
    by (simp add: pow2_def)
  have n: "?x / pow2 (?e - 52) = of_int ?n" by (simp add: q)
  have v: "of_int ?n * pow2 (?e - 52) = ?x" by (simp add: q)
  have "?x < pow2 1024" using \<open>?x < pow2 53\<close> pow2_less [of 53 1024] by linarith
  then have c7: "of_int ?n * pow2 (?e - 52) < pow2 1024" by (simp only: v)
  have c4: "- 1022 \<le> ?e" using e0 by simp
  have c5: "of_int ?n - 1 / 2 < ?x / pow2 (?e - 52)" unfolding n by simp
  have c6: "?x / pow2 (?e - 52) < of_int ?n + 1 / 2" unfolding n by simp
  have "round_double ?x = Fin (of_int ?n * pow2 (?e - 52))"
    by (rule round_double_eval [OF xpos b(1) b(2) c4 c5 c6 c7])
  then show ?thesis by (simp only: v)
qed

lemma round_double_numeral [simp]:
  "numeral w < (2::int) ^ 53 \<Longrightarrow> round_double (numeral w) = Fin (numeral w)"
  using round_double_int [of "numeral w"] by simp

lemma round_double_one [simp]: "round_double 1 = Fin 1"
  using round_double_int [of 1] by simp

lemma round_double_zero [simp]: "round_double 0 = Fin 0"
  by (simp add: round_double_def)


lemma round_13_1800: "round_double (13 / 1800) = Fin (4163327655524725 / 576460752303423488)"
  using round_double_eval [of "13 / 1800" "-8" 8326655311049450] by (simp add: pow2_def)

lemma round_1_10: "round_double (1 / 10) = Fin (3602879701896397 / 36028797018963968)"
  using round_double_eval [of "1 / 10" "-4" 7205759403792794] by (simp add: pow2_def)




lemma round_59_60: "round_double (59 / 60) = Fin (8857079267161975 / 9007199254740992)"
  using round_double_eval [of "59 / 60" "-1" 8857079267161975] by (simp add: pow2_def)

lemma round_3_2: "round_double (3 / 2) = Fin (3 / 2)"
  using round_double_eval [of "3 / 2" "0" 6755399441055744] by (simp add: pow2_def)



lemma round_x10: "round_double (76674724407904863883 / 576460752303423488) = Fin (2339926892331081 / 17592186044416)"
  using round_double_eval [of "76674724407904863883 / 576460752303423488" "7" 4679853784662162] by (simp add: pow2_def)

lemma round_x11: "round_double (1198107620868130953 / 9007199254740992) = Fin (4680107894016137 / 35184372088832)"
  using round_double_eval [of "1198107620868130953 / 9007199254740992" "7" 4680107894016137] by (simp add: pow2_def)



lemma round_x14: "round_double (18000000000000000001 / 100000000000000000) = Fin 180"
  using round_double_eval [of "18000000000000000001 / 100000000000000000" "7" 6333186975989760] by (simp add: pow2_def)





lemma round_x19: "round_double (36000000000000000001 / 100000000000000000) = Fin 360"
  using round_double_eval [of "36000000000000000001 / 100000000000000000" "8" 6333186975989760] by (simp add: pow2_def)

subsection \<open>The searches never fail and never give back\<close>

lemma backtrack_greedy:
  assumes "\<And>t. match_here its t = Some (greedy its t)"
  shows "backtrack it its s (length (takeWhile (item_class it) s))
         = Some (emit it (takeWhile (item_class it) s) (greedy its (dropWhile (item_class it) s)))"
proof (cases "length (takeWhile (item_class it) s)")
  case 0
  then have "takeWhile (item_class it) s = []" by simp
  then have "dropWhile (item_class it) s = s"
    by (metis append_Nil takeWhile_dropWhile_id)
  with 0 \<open>takeWhile (item_class it) s = []\<close> assms show ?thesis by simp
next
  case (Suc k)
  have t: "take (Suc k) s = takeWhile (item_class it) s"
    using Suc takeWhile_eq_take [of "item_class it" s] by simp
  have d: "drop (Suc k) s = dropWhile (item_class it) s"
    using Suc dropWhile_eq_drop [of "item_class it" s] by simp
  show ?thesis using Suc assms t d by simp
qed

lemma match_here_greedy: "match_here p s = Some (greedy p s)"
proof (induction p arbitrary: s)
  case Nil
  show ?case by simp
next
  case (Cons it its)
  show ?case using backtrack_greedy [of its it s] Cons.IH by simp
qed

lemma re_search_greedy: "re_search p s = Some (greedy p s)"
  by (cases s) (simp_all add: match_here_greedy)

lemma bearing_groups:
  "re_search bearing_pat s =
     Some [takeWhile cardinal_letter s,
           takeWhile (\<lambda>c. \<not> cardinal_letter c) (dropWhile py_isspace (dropWhile cardinal_letter s)),
           takeWhile cardinal_letter
             (dropWhile py_isspace (dropWhile (\<lambda>c. \<not> cardinal_letter c)
                (dropWhile py_isspace (dropWhile cardinal_letter s))))]"
  by (simp add: re_search_greedy bearing_pat_def)

lemma angle_groups:
  "re_search angle_pat a =
     Some [takeWhile numeric_char a,
           takeWhile numeric_char (dropWhile (\<lambda>c. \<not> numeric_char c) (dropWhile numeric_char a)),
           takeWhile numeric_char
             (dropWhile (\<lambda>c. \<not> numeric_char c) (dropWhile numeric_char
                (dropWhile (\<lambda>c. \<not> numeric_char c) (dropWhile numeric_char a))))]"
  by (simp add: re_search_greedy angle_pat_def)

lemma bearing_search_zones:
  "re_search bearing_pat s = Some gs \<Longrightarrow>
     gs ! 0 = prefix_zone s \<and> py_strip (gs ! 1) = middle_zone s \<and> gs ! 2 = suffix_zone s"
  by (simp add: prefix_zone_def middle_zone_def suffix_zone_def)

lemma angle_search_runs:
  "re_search angle_pat a = Some [degrees_run a, minutes_run a, seconds_run a]"
  by (simp add: degrees_run_def minutes_run_def seconds_run_def angle_groups)

lemma accumulate_bearing_zones:
  "accumulate_bearing s =
     (let (init, bearing0) = decode_init (prefix_zone s);
          (dir, bearing1, angle_dir) = decode_dir (suffix_zone s) init bearing0
      in if same_axis init dir then Inl (InvalidDirections init dir)
         else add_angles angle_dir
                [degrees_run (middle_zone s), minutes_run (middle_zone s),
                 seconds_run (middle_zone s)] bearing1)"
proof -
  obtain gs where gs: "re_search bearing_pat s = Some gs"
    by (simp add: re_search_greedy)
  have z: "gs ! 0 = prefix_zone s" "py_strip (gs ! Suc 0) = middle_zone s"
    "gs ! 2 = suffix_zone s"
    using bearing_search_zones [OF gs] by simp_all
  show ?thesis
    unfolding accumulate_bearing_def gs
    by (simp add: z angle_search_runs Let_def split: prod.splits)
qed

lemma parse_bearing_eval:
  assumes "prefix_zone s = p" "suffix_zone s = q" "degrees_run (middle_zone s) = dr"
    "minutes_run (middle_zone s) = mr" "seconds_run (middle_zone s) = sr"
  shows "parse_bearing s =
     (let (init, b0) = decode_init p;
          (dir, b1, k) = decode_dir q init b0
      in if same_axis init dir then Inl (InvalidDirections init dir)
         else (case add_angles k [dr, mr, sr] b1 of
                 Inl e \<Rightarrow> Inl e
               | Inr b \<Rightarrow> check_range b))"
  by (simp add: parse_bearing_def accumulate_bearing_zones assms Let_def split: prod.splits)

subsection \<open>The angle and the range check\<close>

lemma add_run_error: "add_run b run f = Inl e \<Longrightarrow> e = FloatValueError run"
  by (auto simp: add_run_def split: if_splits option.splits)

lemma add_angles_error:
  "add_angles k gs b = Inl e \<Longrightarrow> \<exists>t. e = FloatValueError t"
  by (auto simp: add_angles_def Let_def split: sum.splits dest: add_run_error)

lemma check_range_error: "check_range b = Inl e \<Longrightarrow> \<exists>r. e = InvalidBearingResult r"
  by (auto simp: check_range_def Let_def split: if_splits)

lemma check_range_result:
  "check_range b = Inr r \<Longrightarrow> r = NaN \<or> (\<exists>v. r = Fin v \<and> 0 \<le> v \<and> v \<le> 360)"
  by (cases r) (auto simp: check_range_def Let_def split: if_splits)

lemma parse_bearing_result:
  "parse_bearing s = Inr r \<Longrightarrow> r = NaN \<or> (\<exists>v. r = Fin v \<and> 0 \<le> v \<and> v \<le> 360)"
  by (auto simp: parse_bearing_def split: sum.splits dest: check_range_result)



subsection \<open>Bearings evaluated\<close>

lemma float_10: "py_float ''10'' = Some (Fin 10)"
proof -
  have "float_literal ''10'' = Some (10)" by code_simp
  then show ?thesis by (simp add: py_float_def round_double_neg )
qed

lemma float_46: "py_float ''46'' = Some (Fin 46)"
proof -
  have "float_literal ''46'' = Some (46)" by code_simp
  then show ?thesis by (simp add: py_float_def round_double_neg )
qed

lemma float_59: "py_float ''59'' = Some (Fin 59)"
proof -
  have "float_literal ''59'' = Some (59)" by code_simp
  then show ?thesis by (simp add: py_float_def round_double_neg )
qed

lemma float_26: "py_float ''26'' = Some (Fin 26)"
proof -
  have "float_literal ''26'' = Some (26)" by code_simp
  then show ?thesis by (simp add: py_float_def round_double_neg )
qed


lemma float_0: "py_float ''0'' = Some (Fin 0)"
proof -
  have "float_literal ''0'' = Some (0)" by code_simp
  then show ?thesis by (simp add: py_float_def round_double_neg )
qed

lemma float_90: "py_float ''90'' = Some (Fin 90)"
proof -
  have "float_literal ''90'' = Some (90)" by code_simp
  then show ?thesis by (simp add: py_float_def round_double_neg )
qed





lemma float_above_360: "py_float ''360.00000000000000001'' = Some (Fin 360)"
proof -
  have "float_literal ''360.00000000000000001'' = Some (36000000000000000001 / 100000000000000000)" by code_simp
  then show ?thesis by (simp add: py_float_def round_double_neg round_x19)
qed

lemma float_above_180: "py_float ''180.00000000000000001'' = Some (Fin 180)"
proof -
  have "float_literal ''180.00000000000000001'' = Some (18000000000000000001 / 100000000000000000)" by code_simp
  then show ?thesis by (simp add: py_float_def round_double_neg round_x14)
qed

lemma zones_s465926e:
  "prefix_zone ''S 46 59 26 E'' = ''S''" "suffix_zone ''S 46 59 26 E'' = ''E''"
  "degrees_run (middle_zone ''S 46 59 26 E'') = ''46''" "minutes_run (middle_zone ''S 46 59 26 E'') = ''59''"
  "seconds_run (middle_zone ''S 46 59 26 E'') = ''26''"
  by code_simp+

lemma parse_s465926e:
  "parse_bearing ''S 46 59 26 E'' = Inr (Fin (2339926892331081 / 17592186044416))"
  by (simp add: parse_bearing_eval [OF zones_s465926e] decode_init_def decode_dir_def startswith_def same_axis_def
      add_angles_def add_run_def check_range_def round_double_neg
      float_46 float_59 float_26 round_59_60 round_x11 round_13_1800 round_x10)





lemma zones_n0_90e:
  "prefix_zone ''N 0 90 E'' = ''N''" "suffix_zone ''N 0 90 E'' = ''E''"
  "degrees_run (middle_zone ''N 0 90 E'') = ''0''" "minutes_run (middle_zone ''N 0 90 E'') = ''90''"
  "seconds_run (middle_zone ''N 0 90 E'') = []"
  by code_simp+

lemma parse_n0_90e: "parse_bearing ''N 0 90 E'' = Inr (Fin (3 / 2))"
  by (simp add: parse_bearing_eval [OF zones_n0_90e] decode_init_def decode_dir_def startswith_def same_axis_def
      add_angles_def add_run_def check_range_def round_double_neg
      float_0 float_90 round_3_2)

lemma zones_north_10_east_north:
  "prefix_zone ''north 10 east north'' = ''north''" "suffix_zone ''north 10 east north'' = ''east''"
  "degrees_run (middle_zone ''north 10 east north'') = ''10''" "minutes_run (middle_zone ''north 10 east north'') = []"
  "seconds_run (middle_zone ''north 10 east north'') = []"
  by code_simp+

lemma parse_north_10_east_north: "parse_bearing ''north 10 east north'' = Inr (Fin 10)"
  by (simp add: parse_bearing_eval [OF zones_north_10_east_north] decode_init_def decode_dir_def startswith_def same_axis_def
      add_angles_def add_run_def check_range_def round_double_neg
      float_10)

lemma zones_w10s:
  "prefix_zone ''W 10 S'' = ''W''" "suffix_zone ''W 10 S'' = ''S''"
  "degrees_run (middle_zone ''W 10 S'') = ''10''" "minutes_run (middle_zone ''W 10 S'') = []"
  "seconds_run (middle_zone ''W 10 S'') = []"
  by code_simp+

lemma zones_n10w:
  "prefix_zone ''N 10 W'' = ''N''" "suffix_zone ''N 10 W'' = ''W''"
  "degrees_run (middle_zone ''N 10 W'') = ''10''" "minutes_run (middle_zone ''N 10 W'') = []"
  "seconds_run (middle_zone ''N 10 W'') = []"
  by code_simp+

lemma parse_n10w: "parse_bearing ''N 10 W'' = Inr (Fin 350)"
  by (simp add: parse_bearing_eval [OF zones_n10w] decode_init_def decode_dir_def startswith_def same_axis_def
      add_angles_def add_run_def check_range_def round_double_neg
      float_10)

lemma zones_n10e:
  "prefix_zone ''N 10 E'' = ''N''" "suffix_zone ''N 10 E'' = ''E''"
  "degrees_run (middle_zone ''N 10 E'') = ''10''" "minutes_run (middle_zone ''N 10 E'') = []"
  "seconds_run (middle_zone ''N 10 E'') = []"
  by code_simp+

lemma parse_n10e: "parse_bearing ''N 10 E'' = Inr (Fin 10)"
  by (simp add: parse_bearing_eval [OF zones_n10e] decode_init_def decode_dir_def startswith_def same_axis_def
      add_angles_def add_run_def check_range_def round_double_neg
      float_10)

lemma zones_above_360:
  "prefix_zone ''N 360.00000000000000001 E'' = ''N''" "suffix_zone ''N 360.00000000000000001 E'' = ''E''"
  "degrees_run (middle_zone ''N 360.00000000000000001 E'') = ''360.00000000000000001''" "minutes_run (middle_zone ''N 360.00000000000000001 E'') = []"
  "seconds_run (middle_zone ''N 360.00000000000000001 E'') = []"
  by code_simp+

lemma zones_above_180:
  "prefix_zone ''S 180.00000000000000001 E'' = ''S''" "suffix_zone ''S 180.00000000000000001 E'' = ''E''"
  "degrees_run (middle_zone ''S 180.00000000000000001 E'') = ''180.00000000000000001''" "minutes_run (middle_zone ''S 180.00000000000000001 E'') = []"
  "seconds_run (middle_zone ''S 180.00000000000000001 E'') = []"
  by code_simp+

text \<open>
  Two bearings whose degrees are not doubles: 360.00000000000000001 is read as 360.0
  and accepted, and 180.00000000000000001 is read as 180.0, which leaves 0.
\<close>

lemma parse_rounded_degrees:
  "parse_bearing ''N 360.00000000000000001 E'' = Inr (Fin 360)"
  "parse_bearing ''S 180.00000000000000001 E'' = Inr (Fin 0)"
  by (simp_all add: parse_bearing_eval [OF zones_above_360]
      parse_bearing_eval [OF zones_above_180] decode_init_def decode_dir_def startswith_def same_axis_def
      add_angles_def add_run_def check_range_def round_double_neg
      float_above_360 float_above_180)

subsection \<open>Labels and the axis check\<close>


lemma decode_init_label:
  "fst (decode_init p) =
     (if spec_initial_reference p = West then East else spec_initial_reference p)"
  by (simp add: decode_init_def spec_initial_reference_def)

lemma decode_dir_label: "fst (decode_dir q i b) = spec_swing_direction q"
  by (simp add: decode_dir_def spec_swing_direction_def)

lemma same_axis_west_label: "same_axis (if i = West then East else i) d = same_axis i d"
  by (cases i) (simp_all add: same_axis_def)

lemma parse_bearing_no_axis_error:
  assumes "add_angles k gs b = r"
  shows "\<not> is_axis_error (case r of Inl e \<Rightarrow> Inl e | Inr v \<Rightarrow> check_range v)"
proof (cases r)
  case (Inl e)
  with assms obtain t where "e = FloatValueError t" using add_angles_error by blast
  with Inl show ?thesis by simp
next
  case (Inr v)
  show ?thesis
  proof (cases "check_range v")
    case (Inl e)
    then obtain x where "e = InvalidBearingResult x" using check_range_error by blast
    with Inl Inr show ?thesis by simp
  next
    case (Inr w)
    with \<open>r = Inr v\<close> show ?thesis by simp
  qed
qed

text \<open>
  Claim C4. \<^verbatim>\<open>parse_bearing\<close> raises the error of lines 68 to 71 exactly when the
  initial reference and the swing direction lie on the same axis: North or South with
  North or South, East or West with East or West. The initial reference is read as the
  specification words it (a prefix in W is West); the label east that line 43 gives to
  such a prefix is on the same axis, so the check is the same.
\<close>

theorem C4_axis_validation:
  "is_axis_error (parse_bearing s) =
     same_axis (spec_initial_reference (prefix_zone s)) (spec_swing_direction (suffix_zone s))"
proof -
  obtain i b0 where i: "decode_init (prefix_zone s) = (i, b0)" by (cases "decode_init (prefix_zone s)")
  obtain d b1 k where d: "decode_dir (suffix_zone s) i b0 = (d, b1, k)"
    by (cases "decode_dir (suffix_zone s) i b0")
  have li: "i = (if spec_initial_reference (prefix_zone s) = West then East
                 else spec_initial_reference (prefix_zone s))"
    using decode_init_label [of "prefix_zone s"] i by simp
  have ld: "d = spec_swing_direction (suffix_zone s)"
    using decode_dir_label [of "suffix_zone s" i b0] d by simp
  have ax: "same_axis i d =
      same_axis (spec_initial_reference (prefix_zone s)) (spec_swing_direction (suffix_zone s))"
    unfolding li ld by (rule same_axis_west_label)
  show ?thesis
  proof (cases "same_axis i d")
    case True
    then have "parse_bearing s = Inl (InvalidDirections i d)"
      by (simp add: parse_bearing_def accumulate_bearing_zones i d)
    with True ax show ?thesis by simp
  next
    case False
    then have "parse_bearing s =
        (case add_angles k [degrees_run (middle_zone s), minutes_run (middle_zone s),
                 seconds_run (middle_zone s)] b1 of Inl e \<Rightarrow> Inl e | Inr v \<Rightarrow> check_range v)"
      by (simp add: parse_bearing_def accumulate_bearing_zones i d)
    then have "\<not> is_axis_error (parse_bearing s)"
      using parse_bearing_no_axis_error [OF refl] by simp
    with False ax show ?thesis by simp
  qed
qed

text \<open>
  The theorem at three inputs: a prefix and a suffix in W, both in N, and N with W.
\<close>

theorem C4_axis_validation_witness:
  "is_axis_error (parse_bearing ''W 10 W'')
   \<and> is_axis_error (parse_bearing ''N 10 N'')
   \<and> \<not> is_axis_error (parse_bearing ''N 10 W'')"
proof -
  have a: "same_axis (spec_initial_reference (prefix_zone ''W 10 W''))
             (spec_swing_direction (suffix_zone ''W 10 W''))" by code_simp
  have b: "same_axis (spec_initial_reference (prefix_zone ''N 10 N''))
             (spec_swing_direction (suffix_zone ''N 10 N''))" by code_simp
  have c: "\<not> same_axis (spec_initial_reference (prefix_zone ''N 10 W''))
             (spec_swing_direction (suffix_zone ''N 10 W''))" by code_simp
  show ?thesis
    using a b c C4_axis_validation [of "''W 10 W''"] C4_axis_validation [of "''N 10 N''"]
      C4_axis_validation [of "''N 10 W''"] by simp
qed

text \<open>
  The five examples of the claim all raise this error.
\<close>

lemma axis_examples:
  "map (\<lambda>s. is_axis_error (parse_bearing s))
     [''N 10 N'', ''S 10 N'', ''E 10 E'', ''W 10 W'', ''W 10 E'']
   = [True, True, True, True, True]"
  by code_simp

subsection \<open>Concrete bearings\<close>

text \<open>
  Claim C3. The bearings N and S give 0 and 180. The bearings E and W do not give 90
  and 270: with no suffix the swing direction keeps its default east, the initial
  reference is labelled east too, and the axis check of lines 64 to 71 raises.
\<close>

theorem C3_single_letters:
  "parse_bearing ''N'' = Inr (Fin 0) \<and> parse_bearing ''S'' = Inr (Fin 180)
   \<and> parse_bearing ''E'' = Inl (InvalidDirections East East)
   \<and> parse_bearing ''W'' = Inl (InvalidDirections East East)"
  by code_simp

text \<open>
  Claim C6. A prefix in W is labelled east at line 43, so the test for west at line 48
  never holds and the sign stays +1: W 10 S gives 270 + 10 = 280, not 260.
\<close>

theorem C6_west_south:
  "decode_init ''W'' = (East, Fin 270) \<and> parse_bearing ''W 10 S'' = Inr (Fin 280)"
  by (simp add: parse_bearing_eval [OF zones_w10s] decode_init_def decode_dir_def startswith_def same_axis_def
      add_angles_def add_run_def check_range_def round_double_neg
      float_10)

text \<open>
  Claim C9. No line compares the minutes or the seconds with 60: N 0 90 E has the
  minutes run 90 and is accepted, with the result 90 / 60 = 1.5.
\<close>

theorem C9_minutes_unchecked:
  "minutes_run (middle_zone ''N 0 90 E'') = ''90''
   \<and> parse_bearing ''N 0 90 E'' = Inr (Fin (3 / 2))"
  by (simp add: zones_n0_90e parse_n0_90e)

text \<open>
  Claim C7, as stated: \<^verbatim>\<open>parse_bearing("north 10 east north")\<close> fails. It does not.
\<close>

theorem C7_counterexample: "\<not> isl (parse_bearing ''north 10 east north'')"
  by (simp add: parse_north_10_east_north)

text \<open>
  Claim C7, amended. On north 10 east north the search captures the prefix north, the
  middle zone 10 and the suffix east; the text after the suffix is not looked at, north
  with east is no axis conflict, and the result is 10.
\<close>

theorem C7_trailing_text_ignored:
  "re_search bearing_pat ''north 10 east north'' = Some [''north'', ''10 '', ''east'']
   \<and> parse_bearing ''north 10 east north'' = Inr (Fin 10)"
proof
  show "re_search bearing_pat ''north 10 east north'' = Some [''north'', ''10 '', ''east'']"
    by code_simp
  show "parse_bearing ''north 10 east north'' = Inr (Fin 10)"
    by (rule parse_north_10_east_north)
qed

text \<open>
  Claim C10, as stated: the only failures of \<^verbatim>\<open>parse_bearing\<close> are the axis
  conflict and the result out of range. The middle zone of N - E is a lone sign, which
  \<^verbatim>\<open>float\<close> refuses with a \<^verbatim>\<open>ValueError\<close> of its own.
\<close>

theorem C10_counterexample: "parse_bearing ''N - E'' = Inl (FloatValueError ''-'')"
  by code_simp

text \<open>
  Claim C1, as stated: \<^verbatim>\<open>parse_bearing("S 46 59 26 E")\<close> is within 0.001 of
  180.99056. The sign of a swing from South to East is -1: the result is the double
  133.00944444444445, the rounded value of 180 - (46 + 59/60 + 26/3600).
\<close>

theorem C1_counterexample:
  "parse_bearing ''S 46 59 26 E'' = Inr (Fin (2339926892331081 / 17592186044416))
   \<and> \<not> \<bar>(2339926892331081 / 17592186044416 :: rat) - 180.99056\<bar> \<le> 1 / 1000"
  by (simp add: parse_s465926e)

subsection \<open>South with a swing to the East\<close>






subsection \<open>The range of the result\<close>

lemma zones_overflow:
  "prefix_zone overflow_bearing = ''N''" "suffix_zone overflow_bearing = ''E''"
  "degrees_run (middle_zone overflow_bearing) = CHR ''1'' # replicate 309 (CHR ''0'')"
  "minutes_run (middle_zone overflow_bearing)
   = CHR ''-'' # CHR ''1'' # replicate 309 (CHR ''0'')"
  "seconds_run (middle_zone overflow_bearing) = []"
proof -
  have b: "re_search bearing_pat overflow_bearing =
     Some [''N'',
           CHR ''1'' # replicate 309 (CHR ''0'') @ '' -1'' @ replicate 309 (CHR ''0'') @ '' '',
           ''E'']"
    by code_simp
  have s: "py_strip (CHR ''1'' # replicate 309 (CHR ''0'') @ '' -1''
                     @ replicate 309 (CHR ''0'') @ '' '')
           = CHR ''1'' # replicate 309 (CHR ''0'') @ '' -1'' @ replicate 309 (CHR ''0'')"
    by code_simp
  have a: "re_search angle_pat
             (CHR ''1'' # replicate 309 (CHR ''0'') @ '' -1'' @ replicate 309 (CHR ''0'')) =
     Some [CHR ''1'' # replicate 309 (CHR ''0''),
           CHR ''-'' # CHR ''1'' # replicate 309 (CHR ''0''), []]"
    by code_simp
  show "prefix_zone overflow_bearing = ''N''" "suffix_zone overflow_bearing = ''E''"
    by (simp_all only: prefix_zone_def suffix_zone_def b option.case nth_Cons_0
        nth_Cons_numeral numeral_2_eq_2 nth_Cons_Suc)
  have m: "middle_zone overflow_bearing
           = CHR ''1'' # replicate 309 (CHR ''0'') @ '' -1'' @ replicate 309 (CHR ''0'')"
    by (simp only: middle_zone_def b option.case One_nat_def nth_Cons_Suc nth_Cons_0 s)
  show "degrees_run (middle_zone overflow_bearing) = CHR ''1'' # replicate 309 (CHR ''0'')"
    "minutes_run (middle_zone overflow_bearing)
     = CHR ''-'' # CHR ''1'' # replicate 309 (CHR ''0'')"
    "seconds_run (middle_zone overflow_bearing) = []"
    by (simp_all only: degrees_run_def minutes_run_def seconds_run_def m a option.case
        nth_Cons_0 One_nat_def numeral_2_eq_2 nth_Cons_Suc)
qed

lemma float_overflow:
  "py_float (CHR ''1'' # replicate 309 (CHR ''0'')) = Some PInf"
  "py_float (CHR ''-'' # CHR ''1'' # replicate 309 (CHR ''0'')) = Some NInf"
proof -
  have l: "float_literal (CHR ''1'' # replicate 309 (CHR ''0'')) = Some (10 ^ 309)"
    "float_literal (CHR ''-'' # CHR ''1'' # replicate 309 (CHR ''0'')) = Some (- (10 ^ 309))"
    by code_simp+
  have r: "round_double (10 ^ 309) = PInf"
    by (rule round_double_overflow) (simp add: pow2_def)
  show "py_float (CHR ''1'' # replicate 309 (CHR ''0'')) = Some PInf"
    by (simp only: py_float_def l option.map r)
  show "py_float (CHR ''-'' # CHR ''1'' # replicate 309 (CHR ''0'')) = Some NInf"
    by (simp only: py_float_def l option.map round_double_neg r fneg.simps)
qed

text \<open>
  Claim C5. A returned bearing is not always in [0, 360]. On \<open>overflow_bearing\<close> the
  degrees are read as plus infinity and the minutes as minus infinity, their sum is NaN,
  both comparisons of lines 101 and 104 are false on NaN, and NaN is returned. A
  returned bearing other than NaN is a number of [0, 360] (lemma
  \<open>parse_bearing_result\<close>).
\<close>

theorem C5_nan_returned: "parse_bearing overflow_bearing = Inr NaN"
  by (simp add: parse_bearing_eval [OF zones_overflow] decode_init_def decode_dir_def
      startswith_def same_axis_def add_angles_def add_run_def check_range_def float_overflow)

subsection \<open>The failures of parse_bearing\<close>

text \<open>
  Claim C10, amended. Both searches match on every string, so the errors of lines 97 and
  99 are never raised; a failure of \<^verbatim>\<open>parse_bearing\<close> is the axis conflict, the
  result out of range, or the \<^verbatim>\<open>ValueError\<close> of \<^verbatim>\<open>float\<close> on a numeric run
  that is no decimal literal.
\<close>

theorem C10_failures:
  "re_search bearing_pat s \<noteq> None \<and> re_search angle_pat a \<noteq> None
   \<and> (parse_bearing s = Inl e \<longrightarrow>
        (\<exists>i d. e = InvalidDirections i d) \<or> (\<exists>b. e = InvalidBearingResult b)
        \<or> (\<exists>t. e = FloatValueError t))"
proof (intro conjI impI)
  show "re_search bearing_pat s \<noteq> None" by (simp add: re_search_greedy)
  show "re_search angle_pat a \<noteq> None" by (simp add: re_search_greedy)
next
  assume f: "parse_bearing s = Inl e"
  show "(\<exists>i d. e = InvalidDirections i d) \<or> (\<exists>b. e = InvalidBearingResult b)
        \<or> (\<exists>t. e = FloatValueError t)"
  proof (cases "accumulate_bearing s")
    case (Inl e')
    with f have e: "e' = e" by (simp add: parse_bearing_def)
    obtain i b0 where i: "decode_init (prefix_zone s) = (i, b0)"
      by (cases "decode_init (prefix_zone s)")
    obtain d b1 k where d: "decode_dir (suffix_zone s) i b0 = (d, b1, k)"
      by (cases "decode_dir (suffix_zone s) i b0")
    show ?thesis
    proof (cases "same_axis i d")
      case True
      with Inl e i d show ?thesis by (auto simp: accumulate_bearing_zones)
    next
      case False
      with Inl e i d have "add_angles k [degrees_run (middle_zone s),
          minutes_run (middle_zone s), seconds_run (middle_zone s)] b1 = Inl e"
        by (simp add: accumulate_bearing_zones)
      then show ?thesis using add_angles_error by blast
    qed
  next
    case (Inr v)
    with f have "check_range v = Inl e" by (simp add: parse_bearing_def)
    then show ?thesis using check_range_error by blast
  qed
qed

text \<open>
  The theorem at N - E, whose failure is the one of \<^verbatim>\<open>float\<close>.
\<close>

theorem C10_failures_witness:
  "re_search bearing_pat ''N - E'' \<noteq> None \<and> re_search angle_pat ''-'' \<noteq> None
   \<and> parse_bearing ''N - E'' = Inl (FloatValueError ''-'')
   \<and> ((\<exists>i d. FloatValueError ''-'' = InvalidDirections i d)
        \<or> (\<exists>b. FloatValueError ''-'' = InvalidBearingResult b)
        \<or> (\<exists>t. FloatValueError ''-'' = FloatValueError t))"
proof -
  have f: "parse_bearing ''N - E'' = Inl (FloatValueError ''-'')" by code_simp
  show ?thesis
    using f C10_failures [of "''N - E''" "''-''" "FloatValueError ''-''"] by simp
qed

subsection \<open>The traverse\<close>

lemma row_azimuth_projr: "\<not> isl (row_azimuth row) \<Longrightarrow> row_azimuth row = Inr (projr (row_azimuth row))"
  by (cases "row_azimuth row") simp_all

lemma traverse_loop_path:
  assumes "\<forall>row \<in> set rows. \<not> isl (row_azimuth row)" and "points \<noteq> []"
  shows "traverse_loop destination units rows points
         = Inr (points @ path destination units (last points) rows)"
  using assms
proof (induction rows arbitrary: points)
  case Nil
  show ?case by simp
next
  case (Cons row rows)
  from Cons.prems have "\<not> isl (row_azimuth row)" by simp
  then have az: "row_azimuth row = Inr (projr (row_azimuth row))"
    by (rule row_azimuth_projr)
  from Cons.prems have rest: "\<forall>r \<in> set rows. \<not> isl (row_azimuth r)" by simp
  let ?q = "destination (to_feet units (row_distance row)) (last points) (projr (row_azimuth row))"
  have "traverse_loop destination units (row # rows) points
        = traverse_loop destination units rows (points @ [?q])"
    using Cons.prems(2) by (subst traverse_loop.simps, subst az) (simp add: Let_def)
  also have "\<dots> = Inr ((points @ [?q]) @ path destination units (last (points @ [?q])) rows)"
    by (rule Cons.IH [OF rest]) simp
  finally show ?case by (simp add: Let_def)
qed

lemma length_path: "length (path destination units p rows) = length rows"
  by (induction rows arbitrary: p) (simp_all add: Let_def)

lemma path_step:
  "i < length rows \<Longrightarrow>
     (p # path destination units p rows) ! Suc i
       = destination (to_feet units (row_distance (rows ! i)))
           ((p # path destination units p rows) ! i) (projr (row_azimuth (rows ! i)))"
proof (induction rows arbitrary: p i)
  case Nil
  then show ?case by simp
next
  case (Cons row rows)
  show ?case
  proof (cases i)
    case 0
    then show ?thesis by (simp add: Let_def)
  next
    case (Suc j)
    with Cons.prems have "j < length rows" by simp
    from Cons.IH [OF this] Suc show ?thesis by (simp add: Let_def)
  qed
qed

text \<open>
  Claim C8. When the bearing of every row parses (\<open>row_azimuth\<close>: the cell as
  \<^verbatim>\<open>get_row_val\<close> returns it, given to \<^verbatim>\<open>parse_bearing\<close>), the loop ends with
  a list of points of length n + 1 whose first point is the origin and whose point i + 1
  is the destination from point i at the azimuth of row i and at its distance in feet:
  times 16.5 for poles and for rods, unchanged for feet. Rows are taken in their order.
\<close>

theorem C8_traverse_points:
  assumes "\<forall>row \<in> set rows. \<not> isl (row_azimuth row)"
  shows "\<exists>points. traverse destination units origin rows = Inr points
           \<and> length points = length rows + 1
           \<and> points ! 0 = origin
           \<and> (\<forall>i < length rows.
                 points ! (i + 1)
                   = destination (to_feet units (row_distance (rows ! i))) (points ! i)
                       (projr (row_azimuth (rows ! i))))
           \<and> to_feet (Some ''poles'') x = fmul x (Fin (33 / 2))
           \<and> to_feet (Some ''rods'') x = fmul x (Fin (33 / 2))
           \<and> to_feet (Some ''feet'') x = x"
proof -
  have t: "traverse destination units origin rows
           = Inr (origin # path destination units origin rows)"
    using traverse_loop_path [OF assms, of "[origin]" destination units]
    by (simp add: traverse_def)
  have "length (origin # path destination units origin rows) = length rows + 1"
    by (simp add: length_path)
  moreover have "(origin # path destination units origin rows) ! 0 = origin" by simp
  moreover have "\<forall>i < length rows.
      (origin # path destination units origin rows) ! (i + 1)
        = destination (to_feet units (row_distance (rows ! i)))
            ((origin # path destination units origin rows) ! i)
            (projr (row_azimuth (rows ! i)))"
    using path_step [of _ rows origin destination units] by simp
  moreover have "to_feet (Some ''poles'') x = fmul x (Fin (33 / 2))" "to_feet (Some ''rods'') x = fmul x (Fin (33 / 2))"
    "to_feet (Some ''feet'') x = x"
    by (simp_all add: to_feet_def)
  ultimately show ?thesis using t by blast
qed

lemma azimuth_n10e:
  "row_azimuth \<lparr>row_bearing = '' N 10 E'', row_distance = Fin 2\<rparr> = Inr (Fin 10)"
proof -
  have "get_row_val '' N 10 E'' = Some ''N 10 E''" by code_simp
  then show ?thesis by (simp add: row_azimuth_def parse_n10e)
qed

lemma azimuth_s: "row_azimuth \<lparr>row_bearing = ''S'', row_distance = Fin 4\<rparr> = Inr (Fin 180)"
  by code_simp

text \<open>
  The theorem on two rows in poles, where a point is the list of the steps that lead to
  it: the distances 2 and 4 poles are 33 and 66 feet.
\<close>

theorem C8_traverse_points_witness:
  "traverse (\<lambda>feet p az. p @ [(feet, az)]) (Some ''poles'') []
     [\<lparr>row_bearing = '' N 10 E'', row_distance = Fin 2\<rparr>,
      \<lparr>row_bearing = ''S'', row_distance = Fin 4\<rparr>]
   = Inr [[], [(Fin 33, Fin 10)], [(Fin 33, Fin 10), (Fin 66, Fin 180)]]"
proof -
  let ?rows = "[\<lparr>row_bearing = '' N 10 E'', row_distance = Fin 2\<rparr>,
                \<lparr>row_bearing = ''S'', row_distance = Fin 4\<rparr>]"
  let ?dest = "\<lambda>(feet::pyfloat) (p::(pyfloat \<times> pyfloat) list) (az::pyfloat). p @ [(feet, az)]"
  have h: "\<forall>row \<in> set ?rows. \<not> isl (row_azimuth row)"
    by (simp add: azimuth_n10e azimuth_s)
  from C8_traverse_points [OF h, of ?dest "Some ''poles''" "[]" "Fin 0"]
  obtain points where p: "traverse ?dest (Some ''poles'') [] ?rows = Inr points"
    and l: "length points = length ?rows + 1" and o: "points ! 0 = []"
    and st: "\<forall>i < length ?rows. points ! (i + 1)
        = points ! i @ [(to_feet (Some ''poles'') (row_distance (?rows ! i)),
                         projr (row_azimuth (?rows ! i)))]"
    by auto
  from st have "points ! (0 + 1) = points ! 0 @ [(to_feet (Some ''poles'') (row_distance (?rows ! 0)),
                         projr (row_azimuth (?rows ! 0)))]" by simp
  then have s0: "points ! 1 = [(Fin 33, Fin 10)]"
    using o by (simp add: azimuth_n10e to_feet_def)
  from st have "points ! (1 + 1) = points ! 1 @ [(to_feet (Some ''poles'') (row_distance (?rows ! 1)),
                         projr (row_azimuth (?rows ! 1)))]" by simp
  then have s1: "points ! 2 = [(Fin 33, Fin 10), (Fin 66, Fin 180)]"
    using s0 by (simp add: azimuth_s to_feet_def numeral_2_eq_2)
  from l have "length points = 3" by simp
  then obtain a b c where "points = [a, b, c]"
    by (metis (no_types) length_0_conv length_Suc_conv numeral_3_eq_3)
  with o s0 s1 have "points = [[], [(Fin 33, Fin 10)], [(Fin 33, Fin 10), (Fin 66, Fin 180)]]"
    by simp
  with p show ?thesis by simp
qed

lemma azimuth_s465926e:
  "row_azimuth \<lparr>row_bearing = ''S 46 59 26 E'', row_distance = Fin 95\<rparr>
   = Inr (Fin (2339926892331081 / 17592186044416))"
proof -
  have "get_row_val ''S 46 59 26 E'' = Some ''S 46 59 26 E''" by code_simp
  then show ?thesis by (simp add: row_azimuth_def parse_s465926e)
qed

text \<open>
  Claim C1, amended. \<^verbatim>\<open>parse_bearing("S 46 59 26 E")\<close> is the double
  133.00944444444445: it differs from 180 - (46 + 59/60 + 26/3600) by less than
  10 to the power -12 and is within 0.001 of 133.00944. The traverse of this one row at
  95 feet is the origin followed by the destination from the origin at that azimuth and
  95 feet.
\<close>

theorem C1_south_east_example:
  "parse_bearing ''S 46 59 26 E'' = Inr (Fin (2339926892331081 / 17592186044416))
   \<and> \<bar>2339926892331081 / 17592186044416 - (180 - (46 + 59 / 60 + 26 / 3600) :: rat)\<bar> \<le> 1 / 10 ^ 12
   \<and> \<bar>(2339926892331081 / 17592186044416 :: rat) - 133.00944\<bar> \<le> 1 / 1000
   \<and> traverse destination (Some ''feet'') origin
        [\<lparr>row_bearing = ''S 46 59 26 E'', row_distance = Fin 95\<rparr>]
      = Inr [origin, destination (Fin 95) origin (Fin (2339926892331081 / 17592186044416))]"
proof (intro conjI)
  show "parse_bearing ''S 46 59 26 E'' = Inr (Fin (2339926892331081 / 17592186044416))"
    by (rule parse_s465926e)
  show "\<bar>2339926892331081 / 17592186044416 - (180 - (46 + 59 / 60 + 26 / 3600) :: rat)\<bar> \<le> 1 / 10 ^ 12"
    by simp
  show "\<bar>(2339926892331081 / 17592186044416 :: rat) - 133.00944\<bar> \<le> 1 / 1000"
    by simp
  show "traverse destination (Some ''feet'') origin
        [\<lparr>row_bearing = ''S 46 59 26 E'', row_distance = Fin 95\<rparr>]
      = Inr [origin, destination (Fin 95) origin (Fin (2339926892331081 / 17592186044416))]"
    unfolding traverse_def
    by (subst traverse_loop.simps, subst azimuth_s465926e) (simp add: to_feet_def Let_def)
qed

end
